theory Spec2Isabelle
  imports Complex_Main
begin

section \<open>Values of the Python program\<close>

text \<open>
  The module \<^verbatim>\<open>src/transforms.py\<close> works on two-dimensional numpy arrays.  An array
  carries its element type tag (\<^verbatim>\<open>dtype\<close>), its shape \<open>(height, width)\<close> and its
  pixels, row by row.  Python integers are unbounded (\<open>int\<close>); array extents are never
  negative (\<open>nat\<close>); Python floats are idealised as \<open>real\<close>.
\<close>

record ('d, 'a) ndarray =
  dtype :: 'd
  shape :: "nat \<times> nat"
  rows :: "'a list list"

definition wf_ndarray :: "('d, 'a) ndarray \<Rightarrow> bool" where
  "wf_ndarray a \<longleftrightarrow>
     length (rows a) = fst (shape a) \<and> list_all (\<lambda>r. length r = snd (shape a)) (rows a)"

datatype py_error =
    AssertionError string
  | ValueError string
  | cv2_error string

subsection \<open>String formatting of integers (f-strings)\<close>

fun str_nat :: "nat \<Rightarrow> string" where
  "str_nat n =
     (if n < 10 then [char_of (48 + n)]
      else str_nat (n div 10) @ [char_of (48 + n mod 10)])"

declare str_nat.simps [simp del]

definition str_int :: "int \<Rightarrow> string" where
  "str_int i = (if i < 0 then CHR ''-'' # str_nat (nat (- i)) else str_nat (nat i))"

subsection \<open>Slices of numpy arrays\<close>

text \<open>
  A slice bound \<open>i\<close> on an axis of length \<open>n\<close> is normalised as Python does: a negative
  bound counts from the end, and the result is clipped to \<open>[0, n]\<close>.
\<close>

definition slice_index :: "nat \<Rightarrow> int \<Rightarrow> nat" where
  "slice_index n i = (if i < 0 then nat (int n + i) else min n (nat i))"

text \<open>\<^verbatim>\<open>a[r0:r1, c0:c1]\<close>: the selected block, with the shape numpy gives it.\<close>

definition getitem_slice2 ::
  "('d, 'a) ndarray \<Rightarrow> int \<times> int \<Rightarrow> int \<times> int \<Rightarrow> ('d, 'a) ndarray" where
  "getitem_slice2 a rs cs =
     (let (r0, r1) = rs; (c0, c1) = cs; (H, W) = shape a;
          lo_r = slice_index H r0; hi_r = slice_index H r1;
          lo_c = slice_index W c0; hi_c = slice_index W c1
      in a\<lparr>shape := (hi_r - lo_r, hi_c - lo_c),
           rows := map (\<lambda>r. take (hi_c - lo_c) (drop lo_c r))
                       (take (hi_r - lo_r) (drop lo_r (rows a)))\<rparr>)"

text \<open>
  Broadcasting along one axis in an assignment: a source of the target's length is taken
  as it is, a source of length one is repeated.
\<close>

definition bcast :: "nat \<Rightarrow> 'b list \<Rightarrow> 'b list" where
  "bcast n xs = (if length xs = n then xs else concat (replicate n xs))"

text \<open>
  \<^verbatim>\<open>res[r0:r1, c0:c1] = v\<close>: the target block is the clipped slice; the value must have
  the block's shape (or broadcast to it), otherwise numpy raises \<^verbatim>\<open>ValueError\<close>.
\<close>

definition setitem_slice2 ::
  "('d, 'a) ndarray \<Rightarrow> int \<times> int \<Rightarrow> int \<times> int \<Rightarrow> ('d, 'a) ndarray
     \<Rightarrow> py_error + ('d, 'a) ndarray" where
  "setitem_slice2 res rs cs v =
     (let (r0, r1) = rs; (c0, c1) = cs; (H, W) = shape res;
          lo_r = slice_index H r0; hi_r = slice_index H r1;
          lo_c = slice_index W c0; hi_c = slice_index W c1;
          th = hi_r - lo_r; tw = hi_c - lo_c;
          (vh, vw) = shape v
      in if (vh = th \<or> vh = 1) \<and> (vw = tw \<or> vw = 1) then
           Inr (res\<lparr>rows :=
                  take lo_r (rows res)
                  @ map (\<lambda>(src, dst). take lo_c dst @ bcast tw src @ drop (lo_c + tw) dst)
                        (zip (bcast th (rows v)) (take th (drop lo_r (rows res))))
                  @ drop (lo_r + th) (rows res)\<rparr>)
         else Inl (ValueError ''could not broadcast input array''))"

text \<open>\<^verbatim>\<open>np.zeros((h, w), dtype=dt)\<close>; a negative extent is rejected.\<close>

definition np_zeros :: "int \<times> int \<Rightarrow> 'd \<Rightarrow> py_error + ('d, 'a::zero) ndarray" where
  "np_zeros sz dt =
     (let (h, w) = sz
      in if h < 0 \<or> w < 0 then Inl (ValueError ''negative dimensions are not allowed'')
         else Inr \<lparr>dtype = dt, shape = (nat h, nat w),
                   rows = replicate (nat h) (replicate (nat w) 0)\<rparr>)"

subsection \<open>The random source\<close>

text \<open>
  \<^verbatim>\<open>random.randint(a, b)\<close> draws from the closed range \<open>[a, b]\<close> and raises
  \<^verbatim>\<open>ValueError\<close> when the range is empty.  The process-wide generator is made explicit:
  \<open>r\<close> is the raw number the generator delivers for this call, reduced to the range.
\<close>

definition randint :: "int \<Rightarrow> int \<Rightarrow> nat \<Rightarrow> py_error + int" where
  "randint a b r =
     (if b < a then Inl (ValueError ''empty range for randrange()'')
      else Inr (a + int (r mod nat (b - a + 1))))"

section \<open>randomly_displace_and_pad\<close>

text \<open>
  Lines 27--41: the size check, with the crop or the \<^verbatim>\<open>AssertionError\<close>.  The result is
  the triple \<open>(img_h, img_w, img)\<close> of the local variables after the branch.  The warning
  printed to standard output in the crop branch does not reach the returned value and is
  left out.
\<close>

definition crop_or_raise ::
  "('d, 'a) ndarray \<Rightarrow> int \<times> int \<Rightarrow> bool \<Rightarrow> py_error + (int \<times> int \<times> ('d, 'a) ndarray)" where
  "crop_or_raise img padded_size crop_if_necessary =
     (let (frame_h, frame_w) = padded_size;
          (img_h, img_w) = (int (fst (shape img)), int (snd (shape img)))
      in if frame_h < img_h \<or> frame_w < img_w then
           if crop_if_necessary then
             (let (img_h, img_w) = (min img_h frame_h, min img_w frame_w)
              in Inr (img_h, img_w, getitem_slice2 img (0, img_h) (0, img_w)))
           else
             Inl (AssertionError
                   (''Frame is smaller than the image: ('' @ str_int frame_h @ '', ''
                    @ str_int frame_w @ '') vs. ('' @ str_int img_h @ '', ''
                    @ str_int img_w @ '')''))
         else Inr (img_h, img_w, img))"

text \<open>
  The whole function.  \<open>r_top\<close> and \<open>r_left\<close> are the two numbers delivered by the random
  source, in the order of the two \<^verbatim>\<open>random.randint\<close> calls.
\<close>

definition randomly_displace_and_pad ::
  "('d, 'a::zero) ndarray \<Rightarrow> int \<times> int \<Rightarrow> bool \<Rightarrow> nat \<Rightarrow> nat
     \<Rightarrow> py_error + ('d, 'a) ndarray" where
  "randomly_displace_and_pad img padded_size crop_if_necessary r_top r_left =
     (let (frame_h, frame_w) = padded_size
      in case crop_or_raise img padded_size crop_if_necessary of
           Inl e \<Rightarrow> Inl e
         | Inr (img_h, img_w, img) \<Rightarrow>
             (case np_zeros (frame_h, frame_w) (dtype img) of
                Inl e \<Rightarrow> Inl e
              | Inr res \<Rightarrow>
                  (case randint 0 (frame_h - img_h) r_top of
                     Inl e \<Rightarrow> Inl e
                   | Inr pad_top \<Rightarrow>
                       (let pad_bottom = pad_top + img_h
                        in case randint 0 (frame_w - img_w) r_left of
                             Inl e \<Rightarrow> Inl e
                           | Inr pad_left \<Rightarrow>
                               (let pad_right = pad_left + img_w
                                in setitem_slice2 res (pad_top, pad_bottom)
                                     (pad_left, pad_right) img)))))"

text \<open>The top-left \<open>h \<times> w\<close> block of an image, stated directly on the rows.\<close>

definition top_left :: "('d, 'a) ndarray \<Rightarrow> nat \<Rightarrow> nat \<Rightarrow> ('d, 'a) ndarray" where
  "top_left img h w = img\<lparr>shape := (h, w), rows := map (take w) (take h (rows img))\<rparr>"

text \<open>
  The canvas the function builds, in closed form: \<open>t\<close> zero rows, then each image row
  between \<open>l\<close> zeros on its left and the remaining zeros on its right, then zero rows down
  to height \<open>H\<close>.
\<close>

definition placed_rows :: "nat \<Rightarrow> nat \<Rightarrow> nat \<Rightarrow> nat \<Rightarrow> 'a::zero list list \<Rightarrow> 'a list list" where
  "placed_rows H W t l xss =
     replicate t (replicate W 0)
     @ map (\<lambda>src. replicate l 0 @ src @ replicate (W - (l + length src)) 0) xss
     @ replicate (H - (t + length xss)) (replicate W 0)"

section \<open>dpi_adjusting\<close>




section \<open>SafeRandomScale.apply\<close>




section \<open>IAMImageTransforms\<close>

text \<open>
  The operators of a pipeline.  Those of the augmentation library are kept as constructors
  with the arguments the source passes; the two \<^verbatim>\<open>A.Lambda\<close> stages wrap the functions
  above with their keyword arguments bound by \<^verbatim>\<open>partial\<close>.
\<close>

datatype border_mode = BORDER_CONSTANT

datatype transform =
    Lambda_dpi_adjusting real
  | SafeRandomScale real real
  | SafeRotate int border_mode int
  | RandomBrightnessContrast
  | Perspective "real \<times> real"
  | GaussNoise
  | Normalize real real
  | Lambda_randomly_displace_and_pad "int \<times> int" bool
  | PadIfNeeded int int border_mode int

type_synonym Compose = "transform list"

record IAMImageTransforms =
  max_img_size :: "int \<times> int"
  parse_method :: string
  normalize_params :: "real \<times> real"
  scale :: real
  random_scale_limit :: real
  random_rotate_limit :: int

text \<open>Lines 98--104: the frame of the form pipeline.\<close>

definition padded_size :: "IAMImageTransforms \<Rightarrow> int \<times> int" where
  "padded_size self =
     (let (max_img_h, max_img_w) = max_img_size self;
          max_scale = scale self + scale self * random_scale_limit self
      in (\<lceil>max_scale * of_int max_img_h\<rceil>, \<lceil>max_scale * of_int max_img_w\<rceil>))"

text \<open>
  \<^verbatim>\<open>__post_init__\<close>: the result is the pair assigned to \<^verbatim>\<open>self.train_trnsf\<close> and
  \<^verbatim>\<open>self.test_trnsf\<close>, or the \<^verbatim>\<open>ValueError\<close> of the last branch.
\<close>

definition post_init :: "IAMImageTransforms \<Rightarrow> py_error + (Compose \<times> Compose)" where
  "post_init self =
     (let random_scale_limit = random_scale_limit self;
          random_rotate_limit = random_rotate_limit self;
          (mean, std) = normalize_params self;
          (max_img_h, max_img_w) = max_img_size self;
          (padded_h, padded_w) = padded_size self
      in if parse_method self = ''word'' then
           Inr ([Lambda_dpi_adjusting (scale self),
                 SafeRandomScale random_scale_limit 0.5,
                 SafeRotate random_rotate_limit BORDER_CONSTANT 0,
                 RandomBrightnessContrast,
                 GaussNoise,
                 Normalize mean std],
                [Lambda_dpi_adjusting (scale self),
                 Normalize mean std])
         else if parse_method self = ''line'' then
           Inr ([Lambda_dpi_adjusting (scale self),
                 SafeRandomScale random_scale_limit 0.5,
                 SafeRotate random_rotate_limit BORDER_CONSTANT 0,
                 RandomBrightnessContrast,
                 GaussNoise,
                 Normalize mean std],
                [Lambda_dpi_adjusting (scale self),
                 Normalize mean std])
         else if parse_method self = ''form'' then
           Inr ([Lambda_dpi_adjusting (scale self),
                 SafeRandomScale random_scale_limit 0.5,
                 SafeRotate random_rotate_limit BORDER_CONSTANT 0,
                 RandomBrightnessContrast,
                 Perspective (0.03, 0.05),
                 GaussNoise,
                 Normalize mean std,
                 Lambda_randomly_displace_and_pad (padded_h, padded_w) True],
                [Lambda_dpi_adjusting (scale self),
                 Normalize mean std,
                 PadIfNeeded max_img_h max_img_w BORDER_CONSTANT 0])
         else Inl (ValueError (parse_method self @ '' is not a valid parse method.'')))"

section \<open>Properties of randomly_displace_and_pad\<close>

subsection \<open>Writing a block into a zero canvas\<close>

lemma bcast_same: "length xs = n \<Longrightarrow> bcast n xs = xs"
  by (simp add: bcast_def)

lemma setitem_on_zeros:
  fixes img :: "('d, 'a::zero) ndarray"
  assumes wf: "wf_ndarray img" and sh: "shape img = (h, w)"
    and t: "t + h \<le> H" and l: "l + w \<le> W"
  shows "setitem_slice2 \<lparr>dtype = dt, shape = (H, W), rows = replicate H (replicate W 0)\<rparr>
           (int t, int t + int h) (int l, int l + int w) img
         = Inr \<lparr>dtype = dt, shape = (H, W), rows = placed_rows H W t l (rows img)\<rparr>"
proof -
  have len: "length (rows img) = h" using wf sh by (simp add: wf_ndarray_def)
  have rowlen: "\<And>r. r \<in> set (rows img) \<Longrightarrow> length r = w"
    using wf sh by (simp add: wf_ndarray_def list_all_iff)
  have si: "slice_index H (int t) = t" "slice_index H (int t + int h) = t + h"
           "slice_index W (int l) = l" "slice_index W (int l + int w) = l + w"
    using t l by (simp_all add: slice_index_def nat_add_distrib)
  have z: "zip (rows img) (replicate h (replicate W (0::'a))) = map (\<lambda>x. (x, replicate W 0)) (rows img)"
    using len by (simp add: zip_replicate2)
  have m: "map (\<lambda>(src, dst). take l dst @ bcast w src @ drop (l + w) dst)
             (zip (rows img) (replicate h (replicate W (0::'a))))
           = map (\<lambda>src. replicate l 0 @ src @ replicate (W - (l + length src)) 0) (rows img)"
    unfolding z map_map using l rowlen
    by (intro map_cong) (auto simp: bcast_same min_def)
  have mn: "min h (H - t) = h" "min l W = l" "min t H = t" using t l by simp_all
  show ?thesis
    using len
    by (simp add: setitem_slice2_def sh si bcast_same m placed_rows_def mn)
qed


lemma length_placed_rows:
  "t + length xss \<le> H \<Longrightarrow> length (placed_rows H W t l xss) = H"
  by (simp add: placed_rows_def)

lemma placed_rows_row_length:
  assumes "\<And>r. r \<in> set xss \<Longrightarrow> l + length r \<le> W" and "row \<in> set (placed_rows H W t l xss)"
  shows "length row = W"
  using assms by (fastforce simp: placed_rows_def)

lemma block_of_placed_rows:
  assumes "length xss = h" and "\<And>r. r \<in> set xss \<Longrightarrow> length r = w"
  shows "map (\<lambda>r. take w (drop l r)) (take h (drop t (placed_rows H W t l xss))) = xss"
proof -
  have "take h (drop t (placed_rows H W t l xss))
        = map (\<lambda>src. replicate l 0 @ src @ replicate (W - (l + length src)) 0) xss"
    using assms(1) by (simp add: placed_rows_def)
  moreover have "map (\<lambda>r. take w (drop l r))
                   (map (\<lambda>src. replicate l 0 @ src @ replicate (W - (l + length src)) 0) xss) = xss"
    using assms(2) by (simp add: map_idI)
  ultimately show ?thesis by simp
qed

lemma placed_rows_outside:
  assumes len: "length xss = h" and rl: "\<And>r. r \<in> set xss \<Longrightarrow> length r = w"
    and fit: "t + h \<le> H" "l + w \<le> W"
    and i: "i < H" and j: "j < W"
    and out: "\<not> (t \<le> i \<and> i < t + h \<and> l \<le> j \<and> j < l + w)"
  shows "placed_rows H W t l xss ! i ! j = 0"
proof -
  consider (above) "i < t" | (inside) "t \<le> i" "i < t + h" | (below) "t + h \<le> i"
    by linarith
  then show ?thesis
  proof cases
    case above
    then show ?thesis using j by (simp add: placed_rows_def nth_append)
  next
    case inside
    then have k: "i - t < length xss" using len by simp
    then have rw: "length (xss ! (i - t)) = w" using rl by simp
    have row: "placed_rows H W t l xss ! i
               = replicate l 0 @ xss ! (i - t) @ replicate (W - (l + w)) 0"
      using inside k rw len by (simp add: placed_rows_def nth_append)
    from out inside have "j < l \<or> l + w \<le> j" by linarith
    then show ?thesis using j fit rw by (auto simp: row nth_append)
  next
    case below
    then have "\<not> i < t" "\<not> i - t < h" "i - t - h < H - (t + h)" using i by linarith+
    then show ?thesis using j len by (simp add: placed_rows_def nth_append)
  qed
qed

lemma placed_rows_inside:
  assumes len: "length xss = h" and rl: "\<And>r. r \<in> set xss \<Longrightarrow> length r = w"
    and i: "i < h" and j: "j < w"
  shows "placed_rows H W t l xss ! (t + i) ! (l + j) = xss ! i ! j"
proof -
  have rw: "length (xss ! i) = w" using rl i len by simp
  show ?thesis using i j len rw by (simp add: placed_rows_def nth_append)
qed

text \<open>Every value of the closed range is delivered for some state of the random source.\<close>

lemma randint_covers_range:
  assumes "a \<le> v" and "v \<le> b"
  shows "randint a b (nat (v - a)) = Inr v"
proof -
  have "nat (v - a) < nat (b - a + 1)" using assms by linarith
  then have "nat (v - a) mod nat (b - a + 1) = nat (v - a)" by simp
  then show ?thesis using assms by (simp add: randint_def)
qed

lemma randint_from_zero:
  "0 \<le> n \<Longrightarrow> randint 0 n r = Inr (int (r mod (nat n + 1)))"
  by (simp add: randint_def nat_add_distrib)

lemma offset_in_range: "0 \<le> n \<Longrightarrow> int (r mod (nat n + 1)) \<le> n"
proof -
  assume n: "0 \<le> n"
  have "r mod (nat n + 1) < nat n + 1" by simp
  then show ?thesis using n by linarith
qed

lemma np_zeros_nonneg:
  "0 \<le> h \<Longrightarrow> 0 \<le> w \<Longrightarrow>
   np_zeros (h, w) dt
   = Inr \<lparr>dtype = dt, shape = (nat h, nat w), rows = replicate (nat h) (replicate (nat w) 0)\<rparr>"
  by (simp add: np_zeros_def)

lemma rdp_placed:
  fixes img :: "('d, 'a::zero) ndarray"
  assumes cr: "crop_or_raise img (fh, fw) c = Inr (int h, int w, img')"
    and wf: "wf_ndarray img'" and sh: "shape img' = (h, w)"
    and fit: "int h \<le> fh" "int w \<le> fw"
  shows "randomly_displace_and_pad img (fh, fw) c r1 r2
         = Inr \<lparr>dtype = dtype img', shape = (nat fh, nat fw),
                 rows = placed_rows (nat fh) (nat fw)
                          (r1 mod (nat (fh - int h) + 1)) (r2 mod (nat (fw - int w) + 1))
                          (rows img')\<rparr>"
proof -
  define t where "t = r1 mod (nat (fh - int h) + 1)"
  define l where "l = r2 mod (nat (fw - int w) + 1)"
  have nn: "0 \<le> fh" "0 \<le> fw" "0 \<le> fh - int h" "0 \<le> fw - int w" using fit by simp_all
  have tb: "int t \<le> fh - int h" unfolding t_def by (rule offset_in_range [OF nn(3)])
  have lb: "int l \<le> fw - int w" unfolding l_def by (rule offset_in_range [OF nn(4)])
  have tH: "t + h \<le> nat fh" using tb nn by linarith
  have lW: "l + w \<le> nat fw" using lb nn by linarith
  have ri: "randint 0 (fh - int h) r1 = Inr (int t)" "randint 0 (fw - int w) r2 = Inr (int l)"
    unfolding t_def l_def
    using randint_from_zero [OF nn(3), of r1] randint_from_zero [OF nn(4), of r2] by simp_all
  have "randomly_displace_and_pad img (fh, fw) c r1 r2
        = Inr \<lparr>dtype = dtype img', shape = (nat fh, nat fw),
                rows = placed_rows (nat fh) (nat fw) t l (rows img')\<rparr>"
    unfolding randomly_displace_and_pad_def
    by (simp add: cr np_zeros_nonneg nn ri setitem_on_zeros [OF wf sh tH lW])
  then show ?thesis by (simp add: t_def l_def)
qed

lemma crop_or_raise_fits:
  "shape img = (h, w) \<Longrightarrow> int h \<le> fh \<Longrightarrow> int w \<le> fw \<Longrightarrow>
   crop_or_raise img (fh, fw) c = Inr (int h, int w, img)"
  by (simp add: crop_or_raise_def)

lemma getitem_of_placed:
  fixes img :: "('d, 'a::zero) ndarray"
  assumes wf: "wf_ndarray img" and sh: "shape img = (h, w)"
    and fit: "t + h \<le> H" "l + w \<le> W"
  shows "getitem_slice2
           \<lparr>dtype = dtype img, shape = (H, W), rows = placed_rows H W t l (rows img)\<rparr>
           (int t, int t + int h) (int l, int l + int w) = img"
proof -
  have len: "length (rows img) = h" using wf sh by (simp add: wf_ndarray_def)
  have rowlen: "\<And>r. r \<in> set (rows img) \<Longrightarrow> length r = w"
    using wf sh by (simp add: wf_ndarray_def list_all_iff)
  have si: "slice_index H (int t) = t" "slice_index H (int t + int h) = t + h"
           "slice_index W (int l) = l" "slice_index W (int l + int w) = l + w"
    using fit by (simp_all add: slice_index_def nat_add_distrib)
  show ?thesis
    using sh by (simp add: getitem_slice2_def si block_of_placed_rows [OF len rowlen])
qed


subsection \<open>Which errors can arise\<close>

lemma crop_or_raise_AssertionError:
  "(\<exists>msg. crop_or_raise img (fh, fw) c = Inl (AssertionError msg))
   \<longleftrightarrow> \<not> c \<and> (fh < int (fst (shape img)) \<or> fw < int (snd (shape img)))"
  by (auto simp: crop_or_raise_def)

lemma np_zeros_error: "np_zeros sz dt = Inl e \<Longrightarrow> \<exists>msg. e = ValueError msg"
  by (auto simp: np_zeros_def split: prod.splits if_splits)

lemma randint_error: "randint a b r = Inl e \<Longrightarrow> \<exists>msg. e = ValueError msg"
  by (auto simp: randint_def split: if_splits)

lemma setitem_slice2_error: "setitem_slice2 res rs cs v = Inl e \<Longrightarrow> \<exists>msg. e = ValueError msg"
  by (auto simp: setitem_slice2_def Let_def split: prod.splits if_splits)

lemma rdp_error_cases:
  assumes "randomly_displace_and_pad img (fh, fw) c r1 r2 = Inl e"
  shows "crop_or_raise img (fh, fw) c = Inl e \<or> (\<exists>msg. e = ValueError msg)"
  using assms
  unfolding randomly_displace_and_pad_def
  by (auto simp: Let_def split: sum.splits prod.splits
      dest: np_zeros_error randint_error setitem_slice2_error)

lemma rdp_crop_error:
  "crop_or_raise img (fh, fw) c = Inl e \<Longrightarrow> randomly_displace_and_pad img (fh, fw) c r1 r2 = Inl e"
  by (simp add: randomly_displace_and_pad_def)

subsection \<open>The canvas after the size check\<close>

lemma placed_rows_exact:
  assumes "length xss = H" and "\<And>r. r \<in> set xss \<Longrightarrow> length r = W"
  shows "placed_rows H W 0 0 xss = xss"
  using assms by (simp add: placed_rows_def map_idI)

lemma rdp_after_check:
  fixes img :: "('d, 'a::zero) ndarray"
  assumes cr: "crop_or_raise img (fh, fw) c = Inr (int h, int w, img')"
    and wf: "wf_ndarray img'" and sh: "shape img' = (h, w)"
    and fit: "int h \<le> fh" "int w \<le> fw"
  shows "\<exists>res pad_top pad_left.
           randomly_displace_and_pad img (fh, fw) c r1 r2 = Inr res
         \<and> wf_ndarray res \<and> shape res = (nat fh, nat fw) \<and> dtype res = dtype img'
         \<and> 0 \<le> pad_top \<and> pad_top \<le> fh - int h
         \<and> 0 \<le> pad_left \<and> pad_left \<le> fw - int w
         \<and> getitem_slice2 res (pad_top, pad_top + int h) (pad_left, pad_left + int w) = img'
         \<and> (\<forall>i j. i < nat fh \<and> j < nat fw
                \<and> \<not> (pad_top \<le> int i \<and> int i < pad_top + int h
                      \<and> pad_left \<le> int j \<and> int j < pad_left + int w)
               \<longrightarrow> rows res ! i ! j = 0)
         \<and> (fh = int h \<and> fw = int w \<longrightarrow> res = img')"
proof -
  define t where "t = r1 mod (nat (fh - int h) + 1)"
  define l where "l = r2 mod (nat (fw - int w) + 1)"
  define res :: "('d, 'a) ndarray" where
    "res = \<lparr>dtype = dtype img', shape = (nat fh, nat fw),
            rows = placed_rows (nat fh) (nat fw) t l (rows img')\<rparr>"
  have nn: "0 \<le> fh - int h" "0 \<le> fw - int w" using fit by simp_all
  have tb: "int t \<le> fh - int h" unfolding t_def by (rule offset_in_range [OF nn(1)])
  have lb: "int l \<le> fw - int w" unfolding l_def by (rule offset_in_range [OF nn(2)])
  have tH: "t + h \<le> nat fh" using tb by linarith
  have lW: "l + w \<le> nat fw" using lb by linarith
  have len: "length (rows img') = h" using wf sh by (simp add: wf_ndarray_def)
  have rowlen: "\<And>r. r \<in> set (rows img') \<Longrightarrow> length r = w"
    using wf sh by (simp add: wf_ndarray_def list_all_iff)
  have run: "randomly_displace_and_pad img (fh, fw) c r1 r2 = Inr res"
    unfolding res_def t_def l_def by (rule rdp_placed [OF cr wf sh fit])
  have wfres: "wf_ndarray res"
  proof -
    have "length (rows res) = nat fh"
      using tH len by (simp add: res_def length_placed_rows)
    moreover have "length row = nat fw" if "row \<in> set (rows res)" for row
    proof (rule placed_rows_row_length)
      show "row \<in> set (placed_rows (nat fh) (nat fw) t l (rows img'))"
        using that by (simp add: res_def)
      show "l + length r \<le> nat fw" if "r \<in> set (rows img')" for r
        using rowlen [OF that] lW by simp
    qed
    ultimately show ?thesis by (simp add: wf_ndarray_def list_all_iff res_def)
  qed
  have blk: "getitem_slice2 res (int t, int t + int h) (int l, int l + int w) = img'"
    unfolding res_def by (rule getitem_of_placed [OF wf sh tH lW])
  have out: "\<forall>i j. i < nat fh \<and> j < nat fw
                \<and> \<not> (int t \<le> int i \<and> int i < int t + int h
                      \<and> int l \<le> int j \<and> int j < int l + int w)
               \<longrightarrow> rows res ! i ! j = 0"
  proof (intro allI impI, elim conjE)
    fix i j
    assume i: "i < nat fh" and j: "j < nat fw"
      and o: "\<not> (int t \<le> int i \<and> int i < int t + int h
                  \<and> int l \<le> int j \<and> int j < int l + int w)"
    from o have o': "\<not> (t \<le> i \<and> i < t + h \<and> l \<le> j \<and> j < l + w)" by linarith
    show "rows res ! i ! j = 0"
      unfolding res_def using placed_rows_outside [OF len rowlen tH lW i j o'] by simp
  qed
  have exact: "res = img'" if eq: "fh = int h \<and> fw = int w"
  proof -
    from eq have z: "t = 0" "l = 0" "nat fh = h" "nat fw = w" by (simp_all add: t_def l_def)
    have "placed_rows h w 0 0 (rows img') = rows img'"
      by (rule placed_rows_exact [OF len rowlen])
    then show ?thesis using sh by (simp add: res_def z)
  qed
  have "randomly_displace_and_pad img (fh, fw) c r1 r2 = Inr res
         \<and> wf_ndarray res \<and> shape res = (nat fh, nat fw) \<and> dtype res = dtype img'
         \<and> 0 \<le> int t \<and> int t \<le> fh - int h
         \<and> 0 \<le> int l \<and> int l \<le> fw - int w
         \<and> getitem_slice2 res (int t, int t + int h) (int l, int l + int w) = img'
         \<and> (\<forall>i j. i < nat fh \<and> j < nat fw
                \<and> \<not> (int t \<le> int i \<and> int i < int t + int h
                      \<and> int l \<le> int j \<and> int j < int l + int w)
               \<longrightarrow> rows res ! i ! j = 0)
         \<and> (fh = int h \<and> fw = int w \<longrightarrow> res = img')"
    using run wfres blk out tb lb exact by (simp add: res_def)
  then show ?thesis by blast
qed

subsection \<open>The crop\<close>

lemma top_left_wf:
  assumes "wf_ndarray img" and "shape img = (h, w)" and "h' \<le> h" and "w' \<le> w"
  shows "wf_ndarray (top_left img h' w')"
  using assms
  by (auto simp: wf_ndarray_def top_left_def list_all_iff dest!: in_set_takeD)

lemma top_left_nth:
  assumes "wf_ndarray img" and "shape img = (h, w)" and "h' \<le> h" and "i < h'" and "j < w'"
  shows "rows (top_left img h' w') ! i ! j = rows img ! i ! j"
  using assms by (simp add: top_left_def wf_ndarray_def)

lemma crop_or_raise_crops:
  assumes sh: "shape img = (h, w)" and nn: "0 \<le> fh" "0 \<le> fw"
    and small: "fh < int h \<or> fw < int w"
  shows "crop_or_raise img (fh, fw) True
         = Inr (int (min h (nat fh)), int (min w (nat fw)),
                top_left img (min h (nat fh)) (min w (nat fw)))"
proof -
  have m: "min (int h) fh = int (min h (nat fh))" "min (int w) fw = int (min w (nat fw))"
    using nn by linarith+
  have si: "slice_index h 0 = 0" "slice_index w 0 = 0"
    "slice_index h (int (min h (nat fh))) = min h (nat fh)"
    "slice_index w (int (min w (nat fw))) = min w (nat fw)"
    by (simp_all add: slice_index_def)
  have g: "getitem_slice2 img (0, int (min h (nat fh))) (0, int (min w (nat fw)))
           = top_left img (min h (nat fh)) (min w (nat fw))"
    by (simp add: getitem_slice2_def sh si top_left_def Let_def)
  show ?thesis
    using small by (simp add: crop_or_raise_def sh m g)
qed

subsection \<open>The claims about randomly_displace_and_pad\<close>

text \<open>
  Claim C1.  For a two-dimensional image that fits the frame (\<open>img_h \<le> frame_h\<close> and
  \<open>img_w \<le> frame_w\<close>), whatever the random source delivers, the function returns an array
  of the frame's shape with the dtype of the input; there are offsets \<open>pad_top\<close> in
  \<open>[0, frame_h - img_h]\<close> and \<open>pad_left\<close> in \<open>[0, frame_w - img_w]\<close> such that the slice
  \<open>[pad_top : pad_top + img_h, pad_left : pad_left + img_w]\<close> of the result is the input
  image, and every pixel outside that slice is zero.
\<close>

theorem place_within_frame:
  fixes img :: "('d, 'a::zero) ndarray"
  assumes wf: "wf_ndarray img" and sh: "shape img = (img_h, img_w)"
    and fit: "int img_h \<le> frame_h" "int img_w \<le> frame_w"
  shows "\<exists>res pad_top pad_left.
           randomly_displace_and_pad img (frame_h, frame_w) crop_if_necessary r_top r_left = Inr res
         \<and> wf_ndarray res \<and> shape res = (nat frame_h, nat frame_w) \<and> dtype res = dtype img
         \<and> 0 \<le> pad_top \<and> pad_top \<le> frame_h - int img_h
         \<and> 0 \<le> pad_left \<and> pad_left \<le> frame_w - int img_w
         \<and> getitem_slice2 res (pad_top, pad_top + int img_h) (pad_left, pad_left + int img_w) = img
         \<and> (\<forall>i j. i < nat frame_h \<and> j < nat frame_w
                \<and> \<not> (pad_top \<le> int i \<and> int i < pad_top + int img_h
                      \<and> pad_left \<le> int j \<and> int j < pad_left + int img_w)
               \<longrightarrow> rows res ! i ! j = 0)"
  using rdp_after_check [OF crop_or_raise_fits [OF sh fit, of crop_if_necessary] wf sh fit, of r_top r_left]
  by blast

theorem place_within_frame_witness:
  "\<exists>res pad_top pad_left.
     randomly_displace_and_pad
       \<lparr>dtype = ''uint8'', shape = (2, 3), rows = [[1, 2, 3], [4, 5, 6::nat]]\<rparr> (4, 5) False 7 10
     = Inr res
   \<and> wf_ndarray res \<and> shape res = (nat 4, nat 5) \<and> dtype res = ''uint8''
   \<and> 0 \<le> pad_top \<and> pad_top \<le> 4 - int 2 \<and> 0 \<le> pad_left \<and> pad_left \<le> 5 - int 3
   \<and> getitem_slice2 res (pad_top, pad_top + int 2) (pad_left, pad_left + int 3)
       = \<lparr>dtype = ''uint8'', shape = (2, 3), rows = [[1, 2, 3], [4, 5, 6::nat]]\<rparr>
   \<and> (\<forall>i j. i < nat 4 \<and> j < nat 5
          \<and> \<not> (pad_top \<le> int i \<and> int i < pad_top + int 2
                \<and> pad_left \<le> int j \<and> int j < pad_left + int 3)
         \<longrightarrow> rows res ! i ! j = 0)"
proof -
  let ?img = "\<lparr>dtype = ''uint8'', shape = (2, 3), rows = [[1, 2, 3], [4, 5, 6::nat]]\<rparr>"
  have wf: "wf_ndarray ?img" by (simp add: wf_ndarray_def)
  have sh: "shape ?img = (2, 3)" by simp
  have fit: "int 2 \<le> 4" "int 3 \<le> 5" by simp_all
  show ?thesis
    using place_within_frame [OF wf sh fit, of False 7 10] by simp
qed

text \<open>
  Claim C2.  The function raises the size-mismatch error (the \<^verbatim>\<open>AssertionError\<close> of
  line 38) if and only if \<open>crop_if_necessary\<close> is false and the frame is smaller than the
  image in at least one dimension.  The error is the result of the call itself: it reaches
  the caller directly.
\<close>

theorem frame_too_small_iff:
  "(\<exists>msg. randomly_displace_and_pad img (frame_h, frame_w) crop_if_necessary r_top r_left
           = Inl (AssertionError msg))
   \<longleftrightarrow> (\<not> crop_if_necessary
        \<and> (frame_h < int (fst (shape img)) \<or> frame_w < int (snd (shape img))))"
proof
  assume "\<exists>msg. randomly_displace_and_pad img (frame_h, frame_w) crop_if_necessary r_top r_left
           = Inl (AssertionError msg)"
  then obtain msg where
    "randomly_displace_and_pad img (frame_h, frame_w) crop_if_necessary r_top r_left
       = Inl (AssertionError msg)" ..
  from rdp_error_cases [OF this]
  have "crop_or_raise img (frame_h, frame_w) crop_if_necessary = Inl (AssertionError msg)"
    by auto
  then show "\<not> crop_if_necessary
        \<and> (frame_h < int (fst (shape img)) \<or> frame_w < int (snd (shape img)))"
    using crop_or_raise_AssertionError [of img frame_h frame_w crop_if_necessary] by blast
next
  assume "\<not> crop_if_necessary
        \<and> (frame_h < int (fst (shape img)) \<or> frame_w < int (snd (shape img)))"
  then obtain msg where "crop_or_raise img (frame_h, frame_w) crop_if_necessary
      = Inl (AssertionError msg)"
    using crop_or_raise_AssertionError [of img frame_h frame_w crop_if_necessary] by blast
  then show "\<exists>msg. randomly_displace_and_pad img (frame_h, frame_w) crop_if_necessary r_top r_left
           = Inl (AssertionError msg)"
    by (blast intro: rdp_crop_error)
qed

theorem frame_too_small_iff_witness:
  "(\<exists>msg. randomly_displace_and_pad
            \<lparr>dtype = ''uint8'', shape = (2, 3), rows = [[1, 2, 3], [4, 5, 6::nat]]\<rparr>
            (1, 5) False 7 10 = Inl (AssertionError msg))
   \<and> \<not> (\<exists>msg. randomly_displace_and_pad
            \<lparr>dtype = ''uint8'', shape = (2, 3), rows = [[1, 2, 3], [4, 5, 6::nat]]\<rparr>
            (1, 5) True 7 10 = Inl (AssertionError msg))
   \<and> \<not> (\<exists>msg. randomly_displace_and_pad
            \<lparr>dtype = ''uint8'', shape = (2, 3), rows = [[1, 2, 3], [4, 5, 6::nat]]\<rparr>
            (2, 3) False 7 10 = Inl (AssertionError msg))"
  using frame_too_small_iff
          [of "\<lparr>dtype = ''uint8'', shape = (2, 3), rows = [[1, 2, 3], [4, 5, 6::nat]]\<rparr>" 1 5 False 7 10]
        frame_too_small_iff
          [of "\<lparr>dtype = ''uint8'', shape = (2, 3), rows = [[1, 2, 3], [4, 5, 6::nat]]\<rparr>" 1 5 True 7 10]
        frame_too_small_iff
          [of "\<lparr>dtype = ''uint8'', shape = (2, 3), rows = [[1, 2, 3], [4, 5, 6::nat]]\<rparr>" 2 3 False 7 10]
  by simp

lemma frame_too_small_message:
  "randomly_displace_and_pad
     \<lparr>dtype = ''uint8'', shape = (2, 3), rows = [[1, 2, 3], [4, 5, 6::nat]]\<rparr> (1, 5) False 7 10
   = Inl (AssertionError ''Frame is smaller than the image: (1, 5) vs. (2, 3)'')"
  by code_simp

text \<open>
  Claim C3.  When the frame (with non-negative extents) is smaller than the image in some
  dimension and \<open>crop_if_necessary\<close> is true, the image is cropped to
  \<open>(min img_h frame_h, min img_w frame_w)\<close>, keeping its top-left block, and the function
  goes on with the cropped extents: the result has the frame's shape, holds the cropped
  image at offsets within the remaining room and zeros elsewhere.  Where the frame is no
  larger than the image in both dimensions, both offsets are 0 and the result is the
  cropped image itself, as for a \<open>(5, 5)\<close> frame and a \<open>(10, 10)\<close> image.
\<close>

theorem crop_when_frame_smaller:
  fixes img :: "('d, 'a::zero) ndarray"
  assumes wf: "wf_ndarray img" and sh: "shape img = (img_h, img_w)"
    and nn: "0 \<le> frame_h" "0 \<le> frame_w"
    and small: "frame_h < int img_h \<or> frame_w < int img_w"
  shows "\<exists>crop_h crop_w cropped res pad_top pad_left.
           crop_h = min img_h (nat frame_h) \<and> crop_w = min img_w (nat frame_w)
         \<and> crop_or_raise img (frame_h, frame_w) True = Inr (int crop_h, int crop_w, cropped)
         \<and> cropped = top_left img crop_h crop_w
         \<and> shape cropped = (crop_h, crop_w)
         \<and> (\<forall>i j. i < crop_h \<and> j < crop_w \<longrightarrow> rows cropped ! i ! j = rows img ! i ! j)
         \<and> randomly_displace_and_pad img (frame_h, frame_w) True r_top r_left = Inr res
         \<and> wf_ndarray res \<and> shape res = (nat frame_h, nat frame_w) \<and> dtype res = dtype img
         \<and> 0 \<le> pad_top \<and> pad_top \<le> frame_h - int crop_h
         \<and> 0 \<le> pad_left \<and> pad_left \<le> frame_w - int crop_w
         \<and> getitem_slice2 res (pad_top, pad_top + int crop_h) (pad_left, pad_left + int crop_w)
             = cropped
         \<and> (\<forall>i j. i < nat frame_h \<and> j < nat frame_w
                \<and> \<not> (pad_top \<le> int i \<and> int i < pad_top + int crop_h
                      \<and> pad_left \<le> int j \<and> int j < pad_left + int crop_w)
               \<longrightarrow> rows res ! i ! j = 0)
         \<and> (frame_h \<le> int img_h \<and> frame_w \<le> int img_w
              \<longrightarrow> pad_top = 0 \<and> pad_left = 0 \<and> res = cropped)"
proof -
  define crop_h where "crop_h = min img_h (nat frame_h)"
  define crop_w where "crop_w = min img_w (nat frame_w)"
  define cropped where "cropped = top_left img crop_h crop_w"
  have le: "crop_h \<le> img_h" "crop_w \<le> img_w" by (simp_all add: crop_h_def crop_w_def)
  have cr: "crop_or_raise img (frame_h, frame_w) True = Inr (int crop_h, int crop_w, cropped)"
    unfolding cropped_def crop_h_def crop_w_def by (rule crop_or_raise_crops [OF sh nn small])
  have wfc: "wf_ndarray cropped"
    unfolding cropped_def by (rule top_left_wf [OF wf sh le])
  have shc: "shape cropped = (crop_h, crop_w)" by (simp add: cropped_def top_left_def)
  have dt: "dtype cropped = dtype img" by (simp add: cropped_def top_left_def)
  have fit: "int crop_h \<le> frame_h" "int crop_w \<le> frame_w"
    using nn by (simp_all add: crop_h_def crop_w_def)
  have px: "\<forall>i j. i < crop_h \<and> j < crop_w \<longrightarrow> rows cropped ! i ! j = rows img ! i ! j"
    unfolding cropped_def using top_left_nth [OF wf sh le(1)] by blast
  have full: "frame_h = int crop_h \<and> frame_w = int crop_w"
    if "frame_h \<le> int img_h \<and> frame_w \<le> int img_w"
    unfolding crop_h_def crop_w_def using that nn by linarith
  from rdp_after_check [OF cr wfc shc fit, of r_top r_left]
  obtain res pad_top pad_left where r:
    "randomly_displace_and_pad img (frame_h, frame_w) True r_top r_left = Inr res
     \<and> wf_ndarray res \<and> shape res = (nat frame_h, nat frame_w) \<and> dtype res = dtype cropped
     \<and> 0 \<le> pad_top \<and> pad_top \<le> frame_h - int crop_h
     \<and> 0 \<le> pad_left \<and> pad_left \<le> frame_w - int crop_w
     \<and> getitem_slice2 res (pad_top, pad_top + int crop_h) (pad_left, pad_left + int crop_w)
         = cropped
     \<and> (\<forall>i j. i < nat frame_h \<and> j < nat frame_w
                \<and> \<not> (pad_top \<le> int i \<and> int i < pad_top + int crop_h
                      \<and> pad_left \<le> int j \<and> int j < pad_left + int crop_w)
               \<longrightarrow> rows res ! i ! j = 0)
     \<and> (frame_h = int crop_h \<and> frame_w = int crop_w \<longrightarrow> res = cropped)"
    by (elim exE) (rule that)
  note r1 = r [THEN conjunct1]
  note r2 = r [THEN conjunct2, THEN conjunct1]
  note r3 = r [THEN conjunct2, THEN conjunct2, THEN conjunct1]
  note r4 = r [THEN conjunct2, THEN conjunct2, THEN conjunct2, THEN conjunct1]
  note rest = r [THEN conjunct2, THEN conjunct2, THEN conjunct2, THEN conjunct2]
  note r5 = rest [THEN conjunct1]
  note r6 = rest [THEN conjunct2, THEN conjunct1]
  note r7 = rest [THEN conjunct2, THEN conjunct2, THEN conjunct1]
  note r8 = rest [THEN conjunct2, THEN conjunct2, THEN conjunct2, THEN conjunct1]
  note rest2 = rest [THEN conjunct2, THEN conjunct2, THEN conjunct2, THEN conjunct2]
  note r9 = rest2 [THEN conjunct1]
  note r10 = rest2 [THEN conjunct2, THEN conjunct1]
  note r11 = rest2 [THEN conjunct2, THEN conjunct2]
  have dtr: "dtype res = dtype img" using r4 dt by simp
  have forced: "frame_h \<le> int img_h \<and> frame_w \<le> int img_w
              \<longrightarrow> pad_top = 0 \<and> pad_left = 0 \<and> res = cropped"
  proof
    assume a: "frame_h \<le> int img_h \<and> frame_w \<le> int img_w"
    note f = full [OF a]
    from f r5 r6 have "pad_top = 0" by simp
    moreover from f r7 r8 have "pad_left = 0" by simp
    moreover from f r11 have "res = cropped" by simp
    ultimately show "pad_top = 0 \<and> pad_left = 0 \<and> res = cropped" by simp
  qed
  show ?thesis
    apply (rule exI [of _ crop_h], rule exI [of _ crop_w], rule exI [of _ cropped])
    apply (rule exI [of _ res], rule exI [of _ pad_top], rule exI [of _ pad_left])
    apply (intro conjI)
    by (fact crop_h_def crop_w_def cr cropped_def shc px r1 r2 r3 dtr r5 r6 r7 r8 r9 r10 forced)+
qed

theorem crop_when_frame_smaller_witness:
  "randomly_displace_and_pad
     \<lparr>dtype = ''uint8'', shape = (10, 10),
      rows = map (\<lambda>i. map (\<lambda>j. 10 * i + j) [0..<10]) [0..<10]\<rparr> (5, 5) True 3 8
   = Inr \<lparr>dtype = ''uint8'', shape = (5, 5),
           rows = [[0, 1, 2, 3, 4], [10, 11, 12, 13, 14], [20, 21, 22, 23, 24],
                   [30, 31, 32, 33, 34], [40, 41, 42, 43, 44 :: nat]]\<rparr>"
proof -
  let ?img = "\<lparr>dtype = ''uint8'', shape = (10, 10),
      rows = map (\<lambda>i. map (\<lambda>j. 10 * i + j) [0..<10]) [0..<10 :: nat]\<rparr>"
  have wf: "wf_ndarray ?img" by (simp add: wf_ndarray_def list_all_iff)
  have sh: "shape ?img = (10, 10)" by simp
  have nn: "(0::int) \<le> 5" by simp
  have small: "(5::int) < int 10 \<or> (5::int) < int 10" by simp
  have le: "(5::int) \<le> int 10 \<and> (5::int) \<le> int 10" by simp
  from crop_when_frame_smaller [OF wf sh nn nn small, of 3 8]
  obtain crop_h crop_w cropped res and pad_top pad_left :: int where
    ch: "crop_h = min 10 (nat 5)" and cw: "crop_w = min 10 (nat 5)"
    and c: "cropped = top_left ?img crop_h crop_w"
    and run: "randomly_displace_and_pad ?img (5, 5) True 3 8 = Inr res"
    and forced: "5 \<le> int 10 \<and> 5 \<le> int 10 \<longrightarrow> pad_top = 0 \<and> pad_left = 0 \<and> res = cropped"
    by (elim exE conjE) (rule that; assumption)
  from forced le have "res = cropped" by blast
  then have "res = top_left ?img (min 10 (nat 5)) (min 10 (nat 5))"
    unfolding c ch cw .
  moreover have "top_left ?img (min 10 (nat 5)) (min 10 (nat 5))
        = \<lparr>dtype = ''uint8'', shape = (5, 5),
           rows = [[0, 1, 2, 3, 4], [10, 11, 12, 13, 14], [20, 21, 22, 23, 24],
                   [30, 31, 32, 33, 34], [40, 41, 42, 43, 44 :: nat]]\<rparr>"
    by code_simp
  ultimately show ?thesis using run by simp
qed

subsection \<open>Every step of a returning call\<close>

lemma crop_or_raise_bounds:
  assumes "crop_or_raise img (fh, fw) c = Inr (ih, iw, img')"
  shows "ih \<le> fh \<and> iw \<le> fw"
  using assms by (auto simp: crop_or_raise_def Let_def split: if_splits)

lemma randint_zero_bounds:
  assumes "randint 0 n r = Inr v"
  shows "0 \<le> v \<and> v \<le> n"
proof -
  from assms have n: "0 \<le> n" and v: "v = int (r mod nat (n + 1))"
    by (auto simp: randint_def split: if_splits)
  have "r mod nat (n + 1) < nat (n + 1)" using n by simp
  then show ?thesis using n v by linarith
qed

lemma rdp_steps:
  assumes "randomly_displace_and_pad img (fh, fw) c r1 r2 = Inr res"
  shows "\<exists>ih iw img' canvas pt pl.
           crop_or_raise img (fh, fw) c = Inr (ih, iw, img')
         \<and> np_zeros (fh, fw) (dtype img') = Inr canvas
         \<and> randint 0 (fh - ih) r1 = Inr pt
         \<and> randint 0 (fw - iw) r2 = Inr pl
         \<and> setitem_slice2 canvas (pt, pt + ih) (pl, pl + iw) img' = Inr res"
  using assms unfolding randomly_displace_and_pad_def
  by (simp add: Let_def split: sum.splits prod.splits)

lemma np_zeros_Inr:
  "np_zeros (h, w) dt = Inr a \<Longrightarrow> 0 \<le> h \<and> 0 \<le> w \<and> shape a = (nat h, nat w)"
  by (auto simp: np_zeros_def split: if_splits)

lemma setitem_slice2_shape:
  "setitem_slice2 a rs cs v = Inr b \<Longrightarrow> shape b = shape a"
  by (auto simp: setitem_slice2_def Let_def split: prod.splits if_splits)

lemma rdp_result_wf:
  fixes img :: "('d, 'a::zero) ndarray"
  assumes wf: "wf_ndarray img"
    and run: "randomly_displace_and_pad img (fh, fw) c r1 r2 = Inr res"
  shows "wf_ndarray res \<and> shape res = (nat fh, nat fw) \<and> 0 \<le> fh \<and> 0 \<le> fw"
proof -
  obtain h w where sh: "shape img = (h, w)" by (cases "shape img")
  from rdp_steps [OF run] obtain ih iw img' and canvas :: "('d, 'a) ndarray" where
    cr: "crop_or_raise img (fh, fw) c = Inr (ih, iw, img')"
    and z: "np_zeros (fh, fw) (dtype img') = Inr canvas"
    by blast
  from np_zeros_Inr [OF z] have nn: "0 \<le> fh" "0 \<le> fw" by simp_all
  show ?thesis
  proof (cases "int h \<le> fh \<and> int w \<le> fw")
    case True
    then have fit: "int h \<le> fh" "int w \<le> fw" by simp_all
    from rdp_after_check [OF crop_or_raise_fits [OF sh fit, of c] wf sh fit, of r1 r2]
    obtain res' where "randomly_displace_and_pad img (fh, fw) c r1 r2 = Inr res'"
      and "wf_ndarray res'" and "shape res' = (nat fh, nat fw)"
      by blast
    with run nn show ?thesis by simp
  next
    case False
    then have small: "fh < int h \<or> fw < int w" by linarith
    have c: "c"
    proof (rule ccontr)
      assume "\<not> c"
      with small sh have "\<exists>msg. crop_or_raise img (fh, fw) c = Inl (AssertionError msg)"
        using crop_or_raise_AssertionError [of img fh fw c] by simp
      with cr show False by simp
    qed
    define ch where "ch = min h (nat fh)"
    define cw where "cw = min w (nat fw)"
    have le: "ch \<le> h" "cw \<le> w" by (simp_all add: ch_def cw_def)
    have cr': "crop_or_raise img (fh, fw) c = Inr (int ch, int cw, top_left img ch cw)"
      unfolding ch_def cw_def using crop_or_raise_crops [OF sh nn small] c by simp
    have wfc: "wf_ndarray (top_left img ch cw)" by (rule top_left_wf [OF wf sh le])
    have shc: "shape (top_left img ch cw) = (ch, cw)" by (simp add: top_left_def)
    have fit: "int ch \<le> fh" "int cw \<le> fw" using nn by (simp_all add: ch_def cw_def)
    from rdp_after_check [OF cr' wfc shc fit, of r1 r2]
    obtain res' where "randomly_displace_and_pad img (fh, fw) c r1 r2 = Inr res'"
      and "wf_ndarray res'" and "shape res' = (nat fh, nat fw)"
      by blast
    with run nn show ?thesis by simp
  qed
qed

lemma crop_or_raise_nonneg:
  assumes "crop_or_raise img (fh, fw) c = Inr (ih, iw, img')" and "0 \<le> fh" and "0 \<le> fw"
  shows "0 \<le> ih \<and> 0 \<le> iw"
  using assms by (auto simp: crop_or_raise_def Let_def split: if_splits)

text \<open>
  Claim C10.  Whenever the function returns (raises nothing), the write into the canvas is
  in bounds: after the size check \<open>img_h \<le> frame_h\<close> and \<open>img_w \<le> frame_w\<close> hold; every
  offset \<^verbatim>\<open>random.randint\<close> can deliver lies in \<open>[0, frame_h - img_h]\<close>, respectively
  \<open>[0, frame_w - img_w]\<close>, so that \<open>pad_top + img_h \<le> frame_h\<close> and
  \<open>pad_left + img_w \<le> frame_w\<close>; the four slice bounds are therefore taken as they are,
  without clipping, and the result is an array of exactly the frame's shape.
\<close>

theorem write_in_bounds:
  fixes img :: "('d, 'a::zero) ndarray"
  assumes wf: "wf_ndarray img"
    and run: "randomly_displace_and_pad img (frame_h, frame_w) crop_if_necessary r_top r_left
              = Inr res"
  shows "\<exists>img_h img_w img' pad_top pad_left.
           crop_or_raise img (frame_h, frame_w) crop_if_necessary = Inr (img_h, img_w, img')
         \<and> 0 \<le> img_h \<and> img_h \<le> frame_h \<and> 0 \<le> img_w \<and> img_w \<le> frame_w
         \<and> (\<forall>r v. randint 0 (frame_h - img_h) r = Inr v
                \<longrightarrow> 0 \<le> v \<and> v \<le> frame_h - img_h \<and> v + img_h \<le> frame_h)
         \<and> (\<forall>r v. randint 0 (frame_w - img_w) r = Inr v
                \<longrightarrow> 0 \<le> v \<and> v \<le> frame_w - img_w \<and> v + img_w \<le> frame_w)
         \<and> randint 0 (frame_h - img_h) r_top = Inr pad_top
         \<and> randint 0 (frame_w - img_w) r_left = Inr pad_left
         \<and> 0 \<le> pad_top \<and> pad_top + img_h \<le> frame_h
         \<and> 0 \<le> pad_left \<and> pad_left + img_w \<le> frame_w
         \<and> slice_index (nat frame_h) pad_top = nat pad_top
         \<and> slice_index (nat frame_h) (pad_top + img_h) = nat (pad_top + img_h)
         \<and> slice_index (nat frame_w) pad_left = nat pad_left
         \<and> slice_index (nat frame_w) (pad_left + img_w) = nat (pad_left + img_w)
         \<and> wf_ndarray res \<and> shape res = (nat frame_h, nat frame_w)"
proof -
  from rdp_steps [OF run] obtain img_h img_w img' canvas pad_top pad_left where
    cr: "crop_or_raise img (frame_h, frame_w) crop_if_necessary = Inr (img_h, img_w, img')"
    and rt: "randint 0 (frame_h - img_h) r_top = Inr pad_top"
    and rl: "randint 0 (frame_w - img_w) r_left = Inr pad_left"
    by blast
  from rdp_result_wf [OF wf run]
  have wfres: "wf_ndarray res" and shres: "shape res = (nat frame_h, nat frame_w)"
    and nn: "0 \<le> frame_h" "0 \<le> frame_w" by simp_all
  from crop_or_raise_bounds [OF cr] have le: "img_h \<le> frame_h" "img_w \<le> frame_w" by simp_all
  from crop_or_raise_nonneg [OF cr nn] have ge: "0 \<le> img_h" "0 \<le> img_w" by simp_all
  have all_h: "\<forall>r v. randint 0 (frame_h - img_h) r = Inr v
                \<longrightarrow> 0 \<le> v \<and> v \<le> frame_h - img_h \<and> v + img_h \<le> frame_h"
    using randint_zero_bounds by fastforce
  have all_w: "\<forall>r v. randint 0 (frame_w - img_w) r = Inr v
                \<longrightarrow> 0 \<le> v \<and> v \<le> frame_w - img_w \<and> v + img_w \<le> frame_w"
    using randint_zero_bounds by fastforce
  from all_h rt have pt: "0 \<le> pad_top" "pad_top + img_h \<le> frame_h" by blast+
  from all_w rl have pl: "0 \<le> pad_left" "pad_left + img_w \<le> frame_w" by blast+
  have s1: "slice_index (nat frame_h) pad_top = nat pad_top"
    using pt ge by (simp add: slice_index_def)
  have s2: "slice_index (nat frame_h) (pad_top + img_h) = nat (pad_top + img_h)"
    using pt ge by (simp add: slice_index_def)
  have s3: "slice_index (nat frame_w) pad_left = nat pad_left"
    using pl ge by (simp add: slice_index_def)
  have s4: "slice_index (nat frame_w) (pad_left + img_w) = nat (pad_left + img_w)"
    using pl ge by (simp add: slice_index_def)
  show ?thesis
    apply (rule exI [of _ img_h], rule exI [of _ img_w], rule exI [of _ img'])
    apply (rule exI [of _ pad_top], rule exI [of _ pad_left])
    apply (intro conjI)
    by (fact cr ge le all_h all_w rt rl pt pl s1 s2 s3 s4 wfres shres)+
qed

theorem write_in_bounds_witness:
  "\<exists>img_h img_w img' pad_top pad_left.
           crop_or_raise \<lparr>dtype = ''uint8'', shape = (2, 3), rows = [[1, 2, 3], [4, 5, 6::nat]]\<rparr>
             (2, 2) True = Inr (img_h, img_w, img')
         \<and> 0 \<le> img_h \<and> img_h \<le> 2 \<and> 0 \<le> img_w \<and> img_w \<le> 2
         \<and> (\<forall>r v. randint 0 (2 - img_h) r = Inr v
                \<longrightarrow> 0 \<le> v \<and> v \<le> 2 - img_h \<and> v + img_h \<le> 2)
         \<and> (\<forall>r v. randint 0 (2 - img_w) r = Inr v
                \<longrightarrow> 0 \<le> v \<and> v \<le> 2 - img_w \<and> v + img_w \<le> 2)
         \<and> randint 0 (2 - img_h) 7 = Inr pad_top
         \<and> randint 0 (2 - img_w) 10 = Inr pad_left
         \<and> 0 \<le> pad_top \<and> pad_top + img_h \<le> 2
         \<and> 0 \<le> pad_left \<and> pad_left + img_w \<le> 2
         \<and> slice_index (nat 2) pad_top = nat pad_top
         \<and> slice_index (nat 2) (pad_top + img_h) = nat (pad_top + img_h)
         \<and> slice_index (nat 2) pad_left = nat pad_left
         \<and> slice_index (nat 2) (pad_left + img_w) = nat (pad_left + img_w)
         \<and> wf_ndarray \<lparr>dtype = ''uint8'', shape = (2, 2), rows = [[1, 2], [4, 5::nat]]\<rparr>
         \<and> shape \<lparr>dtype = ''uint8'', shape = (2, 2), rows = [[1, 2], [4, 5::nat]]\<rparr>
             = (nat 2, nat 2)"
proof -
  let ?img = "\<lparr>dtype = ''uint8'', shape = (2, 3), rows = [[1, 2, 3], [4, 5, 6::nat]]\<rparr>"
  have wf: "wf_ndarray ?img" by (simp add: wf_ndarray_def)
  have run: "randomly_displace_and_pad ?img (2, 2) True 7 10
             = Inr \<lparr>dtype = ''uint8'', shape = (2, 2), rows = [[1, 2], [4, 5::nat]]\<rparr>"
    by code_simp
  show ?thesis by (rule write_in_bounds [OF wf run])
qed

section \<open>Properties of SafeRandomScale.apply\<close>





section \<open>Properties of dpi_adjusting\<close>




section \<open>Properties of IAMImageTransforms\<close>

lemma padded_size_parse_method [simp]:
  "padded_size (self\<lparr>parse_method := m\<rparr>) = padded_size self"
  by (simp add: padded_size_def)

text \<open>
  Claim C6.  With parse method \<^verbatim>\<open>word\<close> the train pipeline has exactly six stages, in
  the order DPI adjustment, safe random scale, safe rotate, random brightness and contrast,
  Gaussian noise, normalisation.  With parse method \<^verbatim>\<open>form\<close> it has exactly eight
  stages, and the last one is \<^verbatim>\<open>randomly_displace_and_pad\<close> on the padded frame with
  \<open>crop_if_necessary\<close> true.
\<close>

theorem word_and_form_train_pipelines:
  "(\<exists>train test.
      post_init (self\<lparr>parse_method := ''word''\<rparr>) = Inr (train, test)
    \<and> length train = 6
    \<and> train = [Lambda_dpi_adjusting (scale self),
                SafeRandomScale (random_scale_limit self) (1 / 2),
                SafeRotate (random_rotate_limit self) BORDER_CONSTANT 0,
                RandomBrightnessContrast,
                GaussNoise,
                Normalize (fst (normalize_params self)) (snd (normalize_params self))])
   \<and> (\<exists>train test.
      post_init (self\<lparr>parse_method := ''form''\<rparr>) = Inr (train, test)
    \<and> length train = 8
    \<and> last train = Lambda_randomly_displace_and_pad (padded_size self) True)"
  by (simp add: post_init_def split: prod.splits)

text \<open>
  Claim C7.  For a parse method other than \<^verbatim>\<open>word\<close>, \<^verbatim>\<open>line\<close> and \<^verbatim>\<open>form\<close>,
  \<^verbatim>\<open>__post_init__\<close> raises a \<^verbatim>\<open>ValueError\<close> whose message starts with the offending
  value, and no pipeline is produced.
\<close>

theorem invalid_parse_method:
  assumes "parse_method self \<noteq> ''word''" and "parse_method self \<noteq> ''line''"
    and "parse_method self \<noteq> ''form''"
  shows "post_init self
           = Inl (ValueError (parse_method self @ '' is not a valid parse method.''))
         \<and> (\<nexists>pipelines. post_init self = Inr pipelines)"
  using assms by (simp add: post_init_def split: prod.splits)

theorem invalid_parse_method_witness:
  "post_init \<lparr>max_img_size = (100, 200), parse_method = ''page'', normalize_params = (0, 1),
              scale = 1 / 2, random_scale_limit = 1 / 10, random_rotate_limit = 10\<rparr>
     = Inl (ValueError ''page is not a valid parse method.'')
   \<and> (\<nexists>pipelines.
        post_init \<lparr>max_img_size = (100, 200), parse_method = ''page'', normalize_params = (0, 1),
              scale = 1 / 2, random_scale_limit = 1 / 10, random_rotate_limit = 10\<rparr>
          = Inr pipelines)"
  using invalid_parse_method
          [of "\<lparr>max_img_size = (100, 200), parse_method = ''page'', normalize_params = (0, 1),
              scale = 1 / 2, random_scale_limit = 1 / 10, random_rotate_limit = 10\<rparr>"]
  by simp

text \<open>
  Claim C9.  Two configurations that differ in nothing but the parse method, \<^verbatim>\<open>word\<close>
  for one and \<^verbatim>\<open>line\<close> for the other, get the same train pipeline and the same test
  pipeline.
\<close>

theorem word_line_same_pipelines:
  "post_init (self\<lparr>parse_method := ''word''\<rparr>) = post_init (self\<lparr>parse_method := ''line''\<rparr>)
   \<and> (\<exists>train test. post_init (self\<lparr>parse_method := ''line''\<rparr>) = Inr (train, test))"
  by (simp add: post_init_def split: prod.splits)

subsection \<open>The padded frame\<close>








end
